theory Spec2Isabelle
  imports Complex_Main "HOL-Library.Extended_Nat" "HOL-Library.Sublist"
begin

section \<open>Candidate selection (other/crawler.py)\<close>

text \<open>
  A calendar day is its proleptic ordinal (\<open>date.toordinal()\<close>), so that the difference
  of two days, \<open>(a - b).days\<close>, is the difference of the ordinals.
\<close>

type_synonym date = int

text \<open>
  What \<open>Article.publish_date\<close> can hold when it is not \<open>None\<close>: a
  \<open>datetime.datetime\<close> (a day and the seconds into that day), a plain
  \<open>datetime.date\<close>, or a value of some other type, which neither \<open>isinstance\<close>
  test of \<open>choose_best_article\<close> accepts.
\<close>

datatype pub_date = Datetime date nat | Date date | Other

text \<open>An article as newspaper3k holds it after \<open>download()\<close> and \<open>parse()\<close>.\<close>

record article =
  title :: string
  body :: string
  publish_date :: "pub_date option"

text \<open>The dictionary \<open>{"url": href, "candidate_date": candidate_date}\<close>.\<close>

record candidate =
  url :: string
  candidate_date :: "date option"

text \<open>
  The tuple \<open>(title, content, url, candidate_date)\<close> that \<open>choose_best_article\<close>
  returns; \<open>absent\<close> is \<open>(None, None, None, None)\<close>.
\<close>

type_synonym selection = "string option \<times> string option \<times> string option \<times> date option"

definition absent :: selection where
  "absent = (None, None, None, None)"

text \<open>
  \<open>get_article_data\<close>: the library is the parameter \<open>newspaper\<close>, which gives
  \<open>None\<close> where \<open>download()\<close> or \<open>parse()\<close> raises; the \<open>except\<close> branch
  returns \<open>(None, None, None)\<close>.
\<close>

definition get_article_data ::
  "(string \<Rightarrow> article option) \<Rightarrow> string \<Rightarrow> string option \<times> string option \<times> pub_date option" where
  "get_article_data newspaper u =
     (case newspaper u of
        None \<Rightarrow> (None, None, None)
      | Some a \<Rightarrow> (Some (title a), Some (body a), publish_date a))"

text \<open>Python's truth value of a string or \<open>None\<close>: false for \<open>None\<close> and for \<open>""\<close>.\<close>

fun truthy :: "string option \<Rightarrow> bool" where
  "truthy None = False"
| "truthy (Some s) = (s \<noteq> [])"

text \<open>
  Lines 136 to 141: the date of the search listing when there is one, else the day of
  newspaper3k's \<open>publish_date\<close> when that is a \<open>datetime\<close> or a \<open>date\<close>.
\<close>

fun effective_date :: "date option \<Rightarrow> pub_date option \<Rightarrow> date option" where
  "effective_date (Some d) p = Some d"
| "effective_date None None = None"
| "effective_date None (Some (Datetime d s)) = Some d"
| "effective_date None (Some (Date d)) = Some d"
| "effective_date None (Some Other) = None"

text \<open>
  Lines 143 to 146: \<open>abs((candidate_date - target_date).days)\<close>, or \<open>float("inf")\<close>;
  an extended natural number holds both.
\<close>

fun diff_days :: "date option \<Rightarrow> date \<Rightarrow> enat" where
  "diff_days (Some d) target_date = enat (nat \<bar>d - target_date\<bar>)"
| "diff_days None target_date = \<infinity>"

text \<open>
  The loop of \<open>choose_best_article\<close>. The state is \<open>best_diff\<close>, \<open>best_data\<close> and
  the list of the URLs handed to \<open>get_article_data\<close> so far (the downloads made);
  the result is the returned tuple with that list.
\<close>

fun scan ::
  "(string \<Rightarrow> article option) \<Rightarrow> date \<Rightarrow> candidate list \<Rightarrow> enat \<Rightarrow> selection option \<Rightarrow>
   string list \<Rightarrow> selection \<times> string list" where
  "scan newspaper target_date [] best_diff best_data fetched =
     (case best_data of Some d \<Rightarrow> (d, fetched) | None \<Rightarrow> (absent, fetched))"
| "scan newspaper target_date (c # cs) best_diff best_data fetched =
     (case get_article_data newspaper (url c) of (ttl, content, pub) \<Rightarrow>
        if \<not> truthy ttl \<or> \<not> truthy content
        then scan newspaper target_date cs best_diff best_data (fetched @ [url c])
        else
          let cd = effective_date (candidate_date c) pub;
              diff = diff_days cd target_date
          in if diff = 0 then ((ttl, content, Some (url c), cd), fetched @ [url c])
             else if diff < best_diff
             then scan newspaper target_date cs diff (Some (ttl, content, Some (url c), cd))
                    (fetched @ [url c])
             else scan newspaper target_date cs best_diff best_data (fetched @ [url c]))"

definition choose_best_article ::
  "(string \<Rightarrow> article option) \<Rightarrow> candidate list \<Rightarrow> date \<Rightarrow> selection \<times> string list" where
  "choose_best_article newspaper candidates target_date =
     scan newspaper target_date candidates \<infinity> None []"

text \<open>
  The words of the claims, read off the same pieces: a candidate is usable when its
  download gives a title and a content that are both truthy; its distance is the
  \<open>diff\<close> the loop computes for it; \<open>pick\<close> is the tuple the loop builds for it.
\<close>

definition usable :: "(string \<Rightarrow> article option) \<Rightarrow> candidate \<Rightarrow> bool" where
  "usable newspaper c =
     (case get_article_data newspaper (url c) of (ttl, content, pub) \<Rightarrow>
        truthy ttl \<and> truthy content)"

definition candidate_day :: "(string \<Rightarrow> article option) \<Rightarrow> candidate \<Rightarrow> date option" where
  "candidate_day newspaper c =
     (case get_article_data newspaper (url c) of (ttl, content, pub) \<Rightarrow>
        effective_date (candidate_date c) pub)"

definition distance :: "(string \<Rightarrow> article option) \<Rightarrow> date \<Rightarrow> candidate \<Rightarrow> enat" where
  "distance newspaper target_date c = diff_days (candidate_day newspaper c) target_date"

definition pick :: "(string \<Rightarrow> article option) \<Rightarrow> candidate \<Rightarrow> selection" where
  "pick newspaper c =
     (case get_article_data newspaper (url c) of (ttl, content, pub) \<Rightarrow>
        (ttl, content, Some (url c), effective_date (candidate_date c) pub))"

definition selected_date :: "selection \<Rightarrow> date option" where
  "selected_date s = (case s of (ttl, content, u, d) \<Rightarrow> d)"

text \<open>
  A library and candidate lists to run the selection on: one URL fails to download, one
  article has no publish date, the others were published on day 738886 (2024-01-01).
\<close>

definition example_newspaper :: "string \<Rightarrow> article option" where
  "example_newspaper u =
     (if u = ''https://a.example/broken'' then None
      else if u = ''https://a.example/undated''
      then Some \<lparr>title = ''Apple'', body = ''News'', publish_date = None\<rparr>
      else Some \<lparr>title = ''Apple'', body = ''News'', publish_date = Some (Datetime 738886 3600)\<rparr>)"

definition exact_candidates :: "candidate list" where
  "exact_candidates =
     [\<lparr>url = ''https://a.example/1'', candidate_date = Some 738884\<rparr>,
      \<lparr>url = ''https://a.example/broken'', candidate_date = Some 738886\<rparr>,
      \<lparr>url = ''https://a.example/2'', candidate_date = None\<rparr>,
      \<lparr>url = ''https://a.example/3'', candidate_date = Some 738886\<rparr>]"

definition near_candidates :: "candidate list" where
  "near_candidates =
     [\<lparr>url = ''https://a.example/1'', candidate_date = Some 738891\<rparr>,
      \<lparr>url = ''https://a.example/broken'', candidate_date = Some 738886\<rparr>,
      \<lparr>url = ''https://a.example/2'', candidate_date = Some 738884\<rparr>,
      \<lparr>url = ''https://a.example/3'', candidate_date = Some 738888\<rparr>,
      \<lparr>url = ''https://a.example/undated'', candidate_date = None\<rparr>]"

subsection \<open>Collecting the candidates of a search page\<close>

text \<open>
  \<open>parse_date_from_string\<close>. The parsers of the standard library are parameters:
  \<open>fromisoformat\<close> gives the day of \<open>datetime.fromisoformat(s)\<close> and
  \<open>strptime s fmt\<close> the day of \<open>datetime.strptime(s, fmt)\<close>, \<open>None\<close> where the
  call raises. The first \<open>try\<close> rebinds \<open>date_str\<close> before it parses, so the later
  attempts see the string with every \<open>Z\<close> replaced.
\<close>

definition replace_Z :: "string \<Rightarrow> string" where
  "replace_Z s = concat (map (\<lambda>c. if c = CHR ''Z'' then ''+00:00'' else [c]) s)"

definition parse_date_from_string ::
  "(string \<Rightarrow> date option) \<Rightarrow> (string \<Rightarrow> string \<Rightarrow> date option) \<Rightarrow> string \<Rightarrow> date option" where
  "parse_date_from_string fromisoformat strptime date_str =
     (let iso = CHR ''T'' \<in> set date_str;
          date_str' = (if iso then replace_Z date_str else date_str)
      in case (if iso then fromisoformat date_str' else None) of
           Some d \<Rightarrow> Some d
         | None \<Rightarrow>
             (case strptime date_str' ''%b %d, %Y'' of
                Some d \<Rightarrow> Some d
              | None \<Rightarrow>
                  (case strptime date_str' ''%B %d, %Y'' of
                     Some d \<Rightarrow> Some d
                   | None \<Rightarrow> None)))"

text \<open>
  An \<open><article>\<close> element of the page, as far as the loop reads it: the text of its
  first \<open><time>\<close> element and the \<open>href\<close> of its first anchor that has one.
\<close>

record article_tag =
  time_tag :: "string option"
  anchor :: "string option"

definition absolute_href :: "string \<Rightarrow> string" where
  "absolute_href href =
     (if prefix ''./'' href then ''https://news.google.com'' @ drop 1 href else href)"

text \<open>
  The \<open>for article in articles\<close> loop of \<open>get_candidate_articles\<close>, with the list
  \<open>candidates\<close> as its state; the \<open>break\<close> is the branch that returns.
\<close>

fun gather ::
  "(string \<Rightarrow> date option) \<Rightarrow> int \<Rightarrow> article_tag list \<Rightarrow> candidate list \<Rightarrow> candidate list" where
  "gather parse count [] candidates = candidates"
| "gather parse count (a # as) candidates =
     (let cdate = (case time_tag a of Some txt \<Rightarrow> parse txt | None \<Rightarrow> None);
          candidates' =
            (case anchor a of
               Some href \<Rightarrow>
                 (let c = \<lparr>url = absolute_href href, candidate_date = cdate\<rparr>
                  in if c \<notin> set candidates then candidates @ [c] else candidates)
             | None \<Rightarrow> candidates)
      in if int (length candidates') \<ge> count then candidates'
         else gather parse count as candidates')"

text \<open>
  \<open>get_candidate_articles\<close>: \<open>page\<close> is \<open>None\<close> where loading the page or waiting
  for it raises, and the \<open><article>\<close> elements of the page source otherwise.
\<close>

definition get_candidate_articles ::
  "(string \<Rightarrow> date option) \<Rightarrow> article_tag list option \<Rightarrow> int \<Rightarrow> candidate list" where
  "get_candidate_articles parse page count =
     (case page of None \<Rightarrow> [] | Some articles \<Rightarrow> gather parse count articles [])"

text \<open>
  For the statements: the candidate the loop builds from an element, the candidates of
  all elements that have an anchor, in page order, and a list without its repeats, each
  value at its first place.
\<close>

definition candidate_of :: "(string \<Rightarrow> date option) \<Rightarrow> article_tag \<Rightarrow> candidate option" where
  "candidate_of parse a =
     (case anchor a of
        Some href \<Rightarrow>
          Some \<lparr>url = absolute_href href,
                candidate_date = (case time_tag a of Some txt \<Rightarrow> parse txt | None \<Rightarrow> None)\<rparr>
      | None \<Rightarrow> None)"

definition listed :: "(string \<Rightarrow> date option) \<Rightarrow> article_tag list \<Rightarrow> candidate list" where
  "listed parse articles = List.map_filter (candidate_of parse) articles"

fun first_seen :: "'a list \<Rightarrow> 'a list" where
  "first_seen [] = []"
| "first_seen (x # xs) = x # filter (\<lambda>y. y \<noteq> x) (first_seen xs)"

text \<open>
  A page whose two \<open><article>\<close> elements link to the same address, the first with a
  \<open><time>\<close> element and the second without, and a parser that reads that one date.
\<close>

definition example_parse :: "string \<Rightarrow> date option" where
  "example_parse =
     parse_date_from_string (\<lambda>s. None)
       (\<lambda>s fmt. if s = ''Mar 12, 2018'' \<and> fmt = ''%b %d, %Y'' then Some 736765 else None)"

definition example_page :: "article_tag list" where
  "example_page =
     [\<lparr>time_tag = Some ''Mar 12, 2018'', anchor = Some ''./articles/abc''\<rparr>,
      \<lparr>time_tag = None, anchor = Some ''./articles/abc''\<rparr>]"

section \<open>The scheduler and its checkpoints (other/GDELT.py)\<close>

subsection \<open>The files\<close>

text \<open>
  A JSON text is kept at the grain the run needs: the brackets of the array and one
  token for each article dictionary. \<open>json_load\<close> is what a reader of the file gets;
  \<open>None\<close> is the reader's \<open>JSONDecodeError\<close>.
\<close>

datatype 'a token = LBracket | Object 'a | RBracket

type_synonym 'a files = "string \<Rightarrow> 'a token list option"

definition json_dump :: "'a list \<Rightarrow> 'a token list" where
  "json_dump articles = LBracket # map Object articles @ [RBracket]"

fun objects :: "'a token list \<Rightarrow> 'a list option" where
  "objects [RBracket] = Some []"
| "objects (Object a # rest) = map_option (Cons a) (objects rest)"
| "objects other = None"

fun json_load :: "'a token list \<Rightarrow> 'a list option" where
  "json_load (LBracket # rest) = objects rest"
| "json_load other = None"

text \<open>\<open>open(filename, "w")\<close> creates the file or cuts it to length zero.\<close>

definition open_w :: "'a files \<Rightarrow> string \<Rightarrow> 'a files" where
  "open_w fs filename = fs(filename \<mapsto> [])"

definition write_text :: "'a files \<Rightarrow> string \<Rightarrow> 'a token list \<Rightarrow> 'a files" where
  "write_text fs filename txt =
     fs(filename \<mapsto> (case fs filename of Some old \<Rightarrow> old @ txt | None \<Rightarrow> txt))"

text \<open>
  The states of the file system that \<open>save_articles\<close> goes through: after the
  \<open>open\<close>, and after \<open>json.dump\<close> has written the text and the \<open>with\<close> block has
  closed the file. The store takes every write.
\<close>

definition save_articles_states :: "'a files \<Rightarrow> 'a list \<Rightarrow> string \<Rightarrow> 'a files list" where
  "save_articles_states fs articles filename =
     (let opened = open_w fs filename
      in [opened, write_text opened filename (json_dump articles)])"

definition default_filename :: string where
  "default_filename = ''daily_english_articles save.json''"

definition partial_filename :: string where
  "partial_filename = ''daily_english_articles_partial.json''"

subsection \<open>The run\<close>

text \<open>What the program prints, as far as the statements read it.\<close>

datatype line =
    Saved nat string
  | Day_exception date
  | Interrupted_by_user
  | Error_occurred
  | Finished

text \<open>
  The state of \<open>main\<close>: the list \<open>daily_articles\<close>, the files, the printed lines, the
  days handed to \<open>executor.submit\<close>, the calls of \<open>save_articles\<close> made so far, each
  with its file name and the list it was given, and the snapshots written so far: for
  each call of \<open>save_articles\<close>, in order, the file name and the file system as the call
  left it.
\<close>

record 'a run =
  daily_articles :: "'a list"
  files :: "'a files"
  stdout :: "line list"
  submitted :: "date list"
  flushed :: "(string \<times> 'a list) list"
  written :: "(string \<times> 'a files) list"

definition save_articles :: "'a run \<Rightarrow> 'a list \<Rightarrow> string \<Rightarrow> 'a run" where
  "save_articles s articles filename =
     (let saved = last (save_articles_states (files s) articles filename)
      in s\<lparr>files := saved,
           stdout := stdout s @ [Saved (length articles) filename],
           flushed := flushed s @ [(filename, articles)],
           written := written s @ [(filename, saved)]\<rparr>)"

text \<open>What a reader gets from a snapshot: the file just written, loaded as JSON.\<close>

definition snapshot_read :: "string \<times> 'a files \<Rightarrow> 'a list option" where
  "snapshot_read w = (case snd w (fst w) of Some txt \<Rightarrow> json_load txt | None \<Rightarrow> None)"

text \<open>
  The \<open>while current_date <= end_date\<close> loop that fills \<open>dates\<close>.
\<close>

function build_dates :: "date \<Rightarrow> date \<Rightarrow> date list \<Rightarrow> date list" where
  "build_dates current_date end_date dates =
     (if current_date \<le> end_date
      then build_dates (current_date + 1) end_date (dates @ [current_date])
      else dates)"
  by pat_completeness auto
termination
  by (relation "measure (\<lambda>(current_date, end_date, dates). nat (end_date + 1 - current_date))") auto

declare build_dates.simps [simp del]

text \<open>
  The dictionary comprehension \<open>{executor.submit(process_day, day): day for day in dates}\<close>.
  A future is named by the place of its task in the order of submission.
\<close>

fun submit_all ::
  "date list \<Rightarrow> date list \<Rightarrow> (nat \<times> date) list \<Rightarrow> date list \<times> (nat \<times> date) list" where
  "submit_all pool [] future_to_date = (pool, future_to_date)"
| "submit_all pool (day # days) future_to_date =
     submit_all (pool @ [day]) days (future_to_date @ [(length pool, day)])"

text \<open>
  What \<open>future.result()\<close> gives: the value \<open>process_day\<close> returned (an article
  dictionary or \<open>None\<close>), or an exception. What the main thread meets, in order, while
  it iterates \<open>as_completed\<close>: a completed future, a \<open>KeyboardInterrupt\<close>, or another
  exception raised inside the \<open>with\<close> block.
\<close>

datatype 'a outcome = Returned "'a option" | Raised

datatype 'a event = Done nat "'a outcome" | KeyboardInterrupt | Failure

datatype ending = Completed | Interrupted | Errored

text \<open>
  The \<open>for future in as_completed(future_to_date)\<close> loop. A future that is no key of
  \<open>future_to_date\<close> makes line 123 raise \<open>KeyError\<close>, which the outer handler takes.
\<close>

fun collect_results ::
  "(nat \<times> date) list \<Rightarrow> 'a run \<Rightarrow> 'a event list \<Rightarrow> 'a run \<times> ending" where
  "collect_results future_to_date s [] = (s, Completed)"
| "collect_results future_to_date s (KeyboardInterrupt # events) = (s, Interrupted)"
| "collect_results future_to_date s (Failure # events) = (s, Errored)"
| "collect_results future_to_date s (Done future out # events) =
     (case map_of future_to_date future of
        None \<Rightarrow> (s, Errored)
      | Some day \<Rightarrow>
          (case out of
             Raised \<Rightarrow>
               collect_results future_to_date (s\<lparr>stdout := stdout s @ [Day_exception day]\<rparr>) events
           | Returned None \<Rightarrow> collect_results future_to_date s events
           | Returned (Some result) \<Rightarrow>
               (let s' = s\<lparr>daily_articles := daily_articles s @ [result]\<rparr>
                in collect_results future_to_date
                     (save_articles s' (daily_articles s') partial_filename) events)))"

text \<open>
  \<open>main\<close>, with the two days of the range as parameters (the source fixes them to
  2019-04-17 and 2025-03-07, ordinals 737166 and 739317) and the files as they are when the
  run starts. The \<open>finally\<close> block runs after each of the three endings.
\<close>

definition main :: "'a files \<Rightarrow> date \<Rightarrow> date \<Rightarrow> 'a event list \<Rightarrow> 'a run \<times> ending" where
  "main fs start_date end_date events =
     (let dates = build_dates start_date end_date [];
          (pool, future_to_date) = submit_all [] dates [];
          s0 = \<lparr>daily_articles = [], files = fs, stdout = [], submitted = pool, flushed = [],
                written = []\<rparr>;
          (s1, how) = collect_results future_to_date s0 events;
          s2 = (case how of
                  Completed \<Rightarrow> s1
                | Interrupted \<Rightarrow> s1\<lparr>stdout := stdout s1 @ [Interrupted_by_user]\<rparr>
                | Errored \<Rightarrow> s1\<lparr>stdout := stdout s1 @ [Error_occurred]\<rparr>);
          s3 = save_articles s2 (daily_articles s2) default_filename
      in (s3\<lparr>stdout := stdout s3 @ [Finished]\<rparr>, how))"

text \<open>
  The script: \<open>if __name__ == "__main__": main()\<close>. \<open>main\<close> has no \<open>return\<close>
  statement and the file has no \<open>sys.exit\<close>; after each ending \<open>main\<close> returns
  \<open>None\<close> and the interpreter leaves with status 0.
\<close>

definition exit_status :: "'a run \<times> ending \<Rightarrow> int" where
  "exit_status r = (case snd r of Completed \<Rightarrow> 0 | Interrupted \<Rightarrow> 0 | Errored \<Rightarrow> 0)"

text \<open>The articles that the completed futures of a list of events returned.\<close>

fun found :: "'a event list \<Rightarrow> 'a list" where
  "found [] = []"
| "found (Done future (Returned (Some result)) # events) = result # found events"
| "found (e # events) = found events"

text \<open>
  The events the loop takes before it ends: completed futures that are keys of the
  dictionary. \<open>collected\<close> is what these futures returned, in the order of completion.
\<close>

fun served :: "(nat \<times> date) list \<Rightarrow> 'a event \<Rightarrow> bool" where
  "served future_to_date (Done future out) = (map_of future_to_date future \<noteq> None)"
| "served future_to_date KeyboardInterrupt = False"
| "served future_to_date Failure = False"

text \<open>How the loop ends, read off the events that are left when it stops taking them.\<close>

fun ending_of :: "'a event list \<Rightarrow> ending" where
  "ending_of [] = Completed"
| "ending_of (KeyboardInterrupt # es) = Interrupted"
| "ending_of (e # es) = Errored"

definition future_table :: "date \<Rightarrow> date \<Rightarrow> (nat \<times> date) list" where
  "future_table start_date end_date = snd (submit_all [] (build_dates start_date end_date []) [])"

definition collected :: "date \<Rightarrow> date \<Rightarrow> 'a event list \<Rightarrow> 'a list" where
  "collected start_date end_date events =
     found (takeWhile (served (future_table start_date end_date)) events)"

text \<open>
  A small run over the four days from 2024-01-01, in which every future completes once
  (two with an article, one with none, one with an exception), an empty file system, and
  a file system that already holds a snapshot of one article.
\<close>

definition example_events :: "string event list" where
  "example_events =
     [Done 0 (Returned (Some ''first'')), Done 3 Raised, Done 2 (Returned None),
      Done 1 (Returned (Some ''second''))]"

definition no_files :: "string files" where
  "no_files = (\<lambda>filename. None)"

definition one_snapshot :: "string files" where
  "one_snapshot = no_files(partial_filename \<mapsto> json_dump [''first''])"

section \<open>Sentiment classes (result/textAnalyzer.py, result/combine.py)\<close>

text \<open>
  A score is the real number that the Python float stands for. The literal \<open>0.01\<close> is
  the float next above one hundredth, and no float lies between the two, so on floats
  \<open>compound >= 0.01\<close> is the comparison with one hundredth; \<open>-0.00\<close> is zero.
\<close>

record scores =
  neg_score :: real
  neu_score :: real
  pos_score :: real
  compound :: real

text \<open>
  The methods of \<open>str\<close> that \<open>clean_text\<close> and \<open>aggregate_sentiments\<close> call, as
  parameters: a string is the list of its bytes, and these four read it as text.
\<close>

record str_methods =
  str_len :: "string \<Rightarrow> nat"
  str_strip :: "string \<Rightarrow> string"
  str_lower :: "string \<Rightarrow> string"
  str_splitlines :: "string \<Rightarrow> string list"

definition ad_phrases :: "string list" where
  "ad_phrases =
     [''unlock stock picks'',
      ''broker-level newsfeed'',
      ''upgrade now'',
      ''don'' @ [CHR 0xE2, CHR 0x80, CHR 0x99] @ ''t miss the move'',
      ''sign up'',
      ''free daily newsletter'',
      ''try now>>'',
      ''read more on'',
      ''view comments'']"

fun clean_lines :: "str_methods \<Rightarrow> string list \<Rightarrow> string list \<Rightarrow> string list" where
  "clean_lines lib [] cleaned_lines = cleaned_lines"
| "clean_lines lib (raw # lines) cleaned_lines =
     (let line_stripped = str_strip lib raw
      in if str_len lib line_stripped < 20 then clean_lines lib lines cleaned_lines
         else
           let line_lower = str_lower lib line_stripped
           in if list_ex (\<lambda>phrase. sublist phrase line_lower) ad_phrases
              then clean_lines lib lines cleaned_lines
              else clean_lines lib lines (cleaned_lines @ [line_stripped]))"

fun join_lines :: "string list \<Rightarrow> string" where
  "join_lines [] = []"
| "join_lines [l] = l"
| "join_lines (l # ls) = l @ [CHR 0x0A] @ join_lines ls"

definition clean_text :: "str_methods \<Rightarrow> string \<Rightarrow> string" where
  "clean_text lib txt = join_lines (clean_lines lib (str_splitlines lib txt) [])"

text \<open>\<open>analyze_sentiment\<close>; \<open>polarity_scores\<close> is VADER's analyzer.\<close>

definition analyze_sentiment ::
  "str_methods \<Rightarrow> (string \<Rightarrow> scores) \<Rightarrow> string \<Rightarrow> string \<times> scores" where
  "analyze_sentiment lib polarity_scores txt =
     (let cleaned = clean_text lib txt;
          sc = polarity_scores cleaned;
          c = compound sc;
          sentiment =
            (if c \<ge> 0.01 then ''Positive''
             else if c \<le> - 0.00 then ''Negative''
             else ''Neutral'')
      in (sentiment, sc))"

text \<open>
  An article of the JSON file as \<open>aggregate_sentiments\<close> reads it: the values under
  \<open>"query_date"\<close> and \<open>"seendate"\<close> (\<open>None\<close> for a missing key, which \<open>get\<close> turns
  into \<open>""\<close>) and the compound score under \<open>"sentiment_scores"\<close>.
\<close>

record news_item =
  query_date :: "string option"
  seendate :: "string option"
  item_compound :: "real option"

definition get_or_empty :: "string option \<Rightarrow> string" where
  "get_or_empty v = (case v of Some s \<Rightarrow> s | None \<Rightarrow> [])"

text \<open>\<open>sentiments_by_date.setdefault(date_key, []).append(compound)\<close> on a dictionary
  kept in the order of insertion.\<close>

fun setdefault_append :: "(string \<times> real list) list \<Rightarrow> string \<Rightarrow> real \<Rightarrow> (string \<times> real list) list" where
  "setdefault_append [] k v = [(k, [v])]"
| "setdefault_append ((k', vs) # rest) k v =
     (if k' = k then (k', vs @ [v]) # rest else (k', vs) # setdefault_append rest k v)"

fun group_by_date ::
  "str_methods \<Rightarrow> news_item list \<Rightarrow> (string \<times> real list) list \<Rightarrow> (string \<times> real list) list" where
  "group_by_date lib [] sentiments_by_date = sentiments_by_date"
| "group_by_date lib (a # articles) sentiments_by_date =
     (let date_key = str_strip lib (get_or_empty (query_date a));
          date_key = (if date_key = [] then take 10 (get_or_empty (seendate a)) else date_key)
      in case item_compound a of
           None \<Rightarrow> group_by_date lib articles sentiments_by_date
         | Some c \<Rightarrow> group_by_date lib articles (setdefault_append sentiments_by_date date_key c))"

text \<open>
  \<open>statistics.mean\<close>: it raises \<open>StatisticsError\<close> on an empty list, and gives the float
  nearest to the exact mean otherwise; \<open>to_float\<close> is that rounding.
\<close>

definition mean :: "(real \<Rightarrow> real) \<Rightarrow> real list \<Rightarrow> real option" where
  "mean to_float xs = (if xs = [] then None else Some (to_float (sum_list xs / real (length xs))))"

text \<open>The second loop; an entry is \<open>(date, avg_compound, sentiment)\<close>.\<close>

fun classify_dates ::
  "(real \<Rightarrow> real) \<Rightarrow> (string \<times> real list) list \<Rightarrow> (string \<times> real \<times> string) list option" where
  "classify_dates to_float [] = Some []"
| "classify_dates to_float ((d, compounds) # rest) =
     (case mean to_float compounds of
        None \<Rightarrow> None
      | Some avg_compound \<Rightarrow>
          (let sentiment =
                 (if avg_compound \<ge> 0.01 then ''Positive''
                  else if avg_compound \<le> - 0.00 then ''Negative''
                  else ''Neutral'')
           in map_option (Cons (d, avg_compound, sentiment)) (classify_dates to_float rest)))"

definition aggregate_sentiments ::
  "str_methods \<Rightarrow> (real \<Rightarrow> real) \<Rightarrow> news_item list \<Rightarrow> (string \<times> real \<times> string) list option" where
  "aggregate_sentiments lib to_float articles =
     classify_dates to_float (group_by_date lib articles [])"

text \<open>
  String methods for one-line texts, a stand-in for VADER that gives a fixed compound
  score, and a few scored articles.
\<close>

definition example_str :: str_methods where
  "example_str =
     \<lparr>str_len = length, str_strip = (\<lambda>s. s), str_lower = (\<lambda>s. s),
      str_splitlines = (\<lambda>s. if s = [] then [] else [s])\<rparr>"

definition example_scores :: "real \<Rightarrow> scores" where
  "example_scores c = \<lparr>neg_score = 0, neu_score = 1, pos_score = 0, compound = c\<rparr>"

definition example_items :: "news_item list" where
  "example_items =
     [\<lparr>query_date = Some ''2019-04-15'', seendate = None, item_compound = Some 0.5\<rparr>,
      \<lparr>query_date = Some ''2019-04-13'', seendate = None, item_compound = Some (- 0.3)\<rparr>,
      \<lparr>query_date = None, seendate = Some ''2019-04-14T120000Z'', item_compound = Some 0.004\<rparr>,
      \<lparr>query_date = Some ''2019-04-14'', seendate = None, item_compound = Some 0.006\<rparr>,
      \<lparr>query_date = Some ''2019-04-16'', seendate = None, item_compound = None\<rparr>]"

text \<open>
  The classes as the thresholds of the code draw them, for a score other than zero:
  Positive from one hundredth up, Neutral strictly between zero and one hundredth,
  Negative below zero.
\<close>

definition well_classified :: "real \<Rightarrow> string \<Rightarrow> bool" where
  "well_classified c s =
     ((c \<ge> 0.01 \<longrightarrow> s = ''Positive'') \<and>
      (0 < c \<and> c < 0.01 \<longrightarrow> s = ''Neutral'') \<and>
      (c < 0 \<longrightarrow> s = ''Negative''))"

section \<open>Properties of the candidate selection\<close>

subsection \<open>The loop, one candidate at a time\<close>

lemma scan_unusable:
  "\<not> usable newspaper c \<Longrightarrow>
   scan newspaper t (c # cs) bd bdata fetched = scan newspaper t cs bd bdata (fetched @ [url c])"
  by (auto simp: usable_def split: prod.splits)

lemma scan_exact:
  "usable newspaper c \<Longrightarrow> distance newspaper t c = 0 \<Longrightarrow>
   scan newspaper t (c # cs) bd bdata fetched = (pick newspaper c, fetched @ [url c])"
  by (auto simp: usable_def distance_def candidate_day_def pick_def Let_def split: prod.splits)

lemma scan_better:
  "usable newspaper c \<Longrightarrow> distance newspaper t c \<noteq> 0 \<Longrightarrow> distance newspaper t c < bd \<Longrightarrow>
   scan newspaper t (c # cs) bd bdata fetched =
   scan newspaper t cs (distance newspaper t c) (Some (pick newspaper c)) (fetched @ [url c])"
  by (auto simp: usable_def distance_def candidate_day_def pick_def Let_def split: prod.splits)

lemma scan_not_better:
  "usable newspaper c \<Longrightarrow> distance newspaper t c \<noteq> 0 \<Longrightarrow> \<not> distance newspaper t c < bd \<Longrightarrow>
   scan newspaper t (c # cs) bd bdata fetched = scan newspaper t cs bd bdata (fetched @ [url c])"
  by (auto simp: usable_def distance_def candidate_day_def pick_def Let_def split: prod.splits)

declare scan.simps(2) [simp del]

subsection \<open>The whole list\<close>

lemma scan_first_exact:
  "\<forall>p\<in>set pre. \<not> (usable newspaper p \<and> distance newspaper t p = 0) \<Longrightarrow>
   usable newspaper c \<Longrightarrow> distance newspaper t c = 0 \<Longrightarrow>
   scan newspaper t (pre @ c # post) bd bdata fetched =
     (pick newspaper c, fetched @ map url (pre @ [c]))"
proof (induction pre arbitrary: bd bdata fetched)
  case Nil
  then show ?case by (simp add: scan_exact)
next
  case (Cons p pre)
  have rest: "\<forall>q\<in>set pre. \<not> (usable newspaper q \<and> distance newspaper t q = 0)"
    using Cons.prems(1) by simp
  note IH = Cons.IH [OF rest Cons.prems(2) Cons.prems(3)]
  show ?case
  proof (cases "usable newspaper p")
    case False
    then show ?thesis using IH by (simp add: scan_unusable)
  next
    case True
    then have nz: "distance newspaper t p \<noteq> 0" using Cons.prems(1) by simp
    show ?thesis
    proof (cases "distance newspaper t p < bd")
      case True
      then show ?thesis using \<open>usable newspaper p\<close> nz IH by (simp add: scan_better)
    next
      case False
      then show ?thesis using \<open>usable newspaper p\<close> nz IH by (simp add: scan_not_better)
    qed
  qed
qed

lemma scan_no_improvement:
  "\<forall>c\<in>set cs. usable newspaper c \<longrightarrow> distance newspaper t c \<noteq> 0 \<and> \<not> distance newspaper t c < bd \<Longrightarrow>
   scan newspaper t cs bd bdata fetched =
     (case bdata of Some d \<Rightarrow> d | None \<Rightarrow> absent, fetched @ map url cs)"
proof (induction cs arbitrary: fetched)
  case Nil
  then show ?case by (simp split: option.splits)
next
  case (Cons c cs)
  then show ?case
    by (cases "usable newspaper c") (simp_all add: scan_unusable scan_not_better)
qed

lemma scan_min:
  assumes "\<forall>c\<in>set cs. usable newspaper c \<longrightarrow> distance newspaper t c \<noteq> 0"
    and "\<exists>c\<in>set cs. usable newspaper c \<and> distance newspaper t c < bd"
  shows "\<exists>pre c post. cs = pre @ c # post \<and> usable newspaper c \<and> distance newspaper t c < bd \<and>
           (\<forall>x\<in>set cs. usable newspaper x \<longrightarrow> distance newspaper t c \<le> distance newspaper t x) \<and>
           (\<forall>p\<in>set pre. usable newspaper p \<longrightarrow> distance newspaper t c < distance newspaper t p) \<and>
           scan newspaper t cs bd bdata fetched = (pick newspaper c, fetched @ map url cs)"
  using assms
proof (induction cs arbitrary: bd bdata fetched)
  case Nil
  then show ?case by simp
next
  case (Cons a cs)
  have nz: "\<forall>c\<in>set cs. usable newspaper c \<longrightarrow> distance newspaper t c \<noteq> 0"
    using Cons.prems(1) by simp
  show ?case
  proof (cases "usable newspaper a \<and> distance newspaper t a < bd")
    case True
    then have ua: "usable newspaper a" and lt: "distance newspaper t a < bd" by simp_all
    have nza: "distance newspaper t a \<noteq> 0" using Cons.prems(1) ua by simp
    have step: "scan newspaper t (a # cs) bd bdata fetched =
        scan newspaper t cs (distance newspaper t a) (Some (pick newspaper a)) (fetched @ [url a])"
      using ua nza lt by (rule scan_better)
    show ?thesis
    proof (cases "\<exists>c\<in>set cs. usable newspaper c \<and> distance newspaper t c < distance newspaper t a")
      case True
      from Cons.IH [OF nz True, of "Some (pick newspaper a)" "fetched @ [url a]"]
      obtain pre c post where
        split: "cs = pre @ c # post" and uc: "usable newspaper c"
        and lta: "distance newspaper t c < distance newspaper t a"
        and least: "\<forall>x\<in>set cs. usable newspaper x \<longrightarrow> distance newspaper t c \<le> distance newspaper t x"
        and first: "\<forall>p\<in>set pre. usable newspaper p \<longrightarrow> distance newspaper t c < distance newspaper t p"
        and res: "scan newspaper t cs (distance newspaper t a) (Some (pick newspaper a)) (fetched @ [url a])
                  = (pick newspaper c, (fetched @ [url a]) @ map url cs)"
        by blast
      have "a # cs = (a # pre) @ c # post" using split by simp
      moreover have "distance newspaper t c < bd" using lta lt by simp
      moreover have "\<forall>x\<in>set (a # cs). usable newspaper x \<longrightarrow> distance newspaper t c \<le> distance newspaper t x"
        using least lta by auto
      moreover have "\<forall>p\<in>set (a # pre). usable newspaper p \<longrightarrow> distance newspaper t c < distance newspaper t p"
        using first lta by auto
      moreover have "scan newspaper t (a # cs) bd bdata fetched = (pick newspaper c, fetched @ map url (a # cs))"
        using step res by simp
      ultimately show ?thesis using uc by blast
    next
      case False
      then have none: "\<forall>c\<in>set cs. usable newspaper c \<longrightarrow>
          distance newspaper t c \<noteq> 0 \<and> \<not> distance newspaper t c < distance newspaper t a"
        using nz by blast
      have res: "scan newspaper t (a # cs) bd bdata fetched = (pick newspaper a, fetched @ map url (a # cs))"
        using step scan_no_improvement [OF none, of "Some (pick newspaper a)" "fetched @ [url a]"]
        by simp
      have "a # cs = [] @ a # cs" by simp
      moreover have "\<forall>x\<in>set (a # cs). usable newspaper x \<longrightarrow> distance newspaper t a \<le> distance newspaper t x"
        using False by (auto simp: not_less)
      moreover have "\<forall>p\<in>set []. usable newspaper p \<longrightarrow> distance newspaper t a < distance newspaper t p"
        by simp
      ultimately show ?thesis using ua lt res by blast
    qed
  next
    case False
    then have ex: "\<exists>c\<in>set cs. usable newspaper c \<and> distance newspaper t c < bd"
      using Cons.prems(2) by auto
    have step: "scan newspaper t (a # cs) bd bdata fetched = scan newspaper t cs bd bdata (fetched @ [url a])"
    proof (cases "usable newspaper a")
      case True
      then show ?thesis using False Cons.prems(1) by (simp add: scan_not_better)
    next
      case False
      then show ?thesis by (simp add: scan_unusable)
    qed
    from Cons.IH [OF nz ex, of bdata "fetched @ [url a]"]
    obtain pre c post where
      split: "cs = pre @ c # post" and uc: "usable newspaper c"
      and ltb: "distance newspaper t c < bd"
      and least: "\<forall>x\<in>set cs. usable newspaper x \<longrightarrow> distance newspaper t c \<le> distance newspaper t x"
      and first: "\<forall>p\<in>set pre. usable newspaper p \<longrightarrow> distance newspaper t c < distance newspaper t p"
      and res: "scan newspaper t cs bd bdata (fetched @ [url a])
                = (pick newspaper c, (fetched @ [url a]) @ map url cs)"
      by blast
    have a_far: "usable newspaper a \<longrightarrow> distance newspaper t c < distance newspaper t a"
      using False ltb by (auto simp: not_less)
    have "a # cs = (a # pre) @ c # post" using split by simp
    moreover have "\<forall>x\<in>set (a # cs). usable newspaper x \<longrightarrow> distance newspaper t c \<le> distance newspaper t x"
      using least a_far by auto
    moreover have "\<forall>p\<in>set (a # pre). usable newspaper p \<longrightarrow> distance newspaper t c < distance newspaper t p"
      using first a_far by auto
    moreover have "scan newspaper t (a # cs) bd bdata fetched = (pick newspaper c, fetched @ map url (a # cs))"
      using step res by simp
    ultimately show ?thesis using uc ltb by blast
  qed
qed


lemma choose_best_article_no_date:
  assumes "\<forall>c\<in>set cs. usable newspaper c \<longrightarrow> distance newspaper t c = \<infinity>"
  shows "choose_best_article newspaper cs t = (absent, map url cs)"
proof -
  have "\<forall>c\<in>set cs. usable newspaper c \<longrightarrow>
          distance newspaper t c \<noteq> 0 \<and> \<not> distance newspaper t c < \<infinity>"
    using assms by auto
  from scan_no_improvement [OF this, of None "[]"]
  show ?thesis by (simp add: choose_best_article_def)
qed

text \<open>
  C1 (the code departs from the claim). The claim: when at least one candidate is usable
  and no usable candidate has a date, \<open>choose_best_article\<close> returns the first usable
  candidate. The code at one usable candidate without any date: its \<open>diff\<close> is
  \<open>float("inf")\<close>, the test \<open>diff < best_diff\<close> against the initial
  \<open>float("inf")\<close> fails, \<open>best_data\<close> stays \<open>None\<close> and the function returns
  \<open>(None, None, None, None)\<close>.
\<close>

theorem dateless_candidate_is_dropped:
  "usable (\<lambda>u. Some \<lparr>title = ''Apple'', body = ''News'', publish_date = None\<rparr>)
     \<lparr>url = ''https://a.example/1'', candidate_date = None\<rparr> \<and>
   distance (\<lambda>u. Some \<lparr>title = ''Apple'', body = ''News'', publish_date = None\<rparr>) 738886
     \<lparr>url = ''https://a.example/1'', candidate_date = None\<rparr> = \<infinity> \<and>
   choose_best_article (\<lambda>u. Some \<lparr>title = ''Apple'', body = ''News'', publish_date = None\<rparr>)
     [\<lparr>url = ''https://a.example/1'', candidate_date = None\<rparr>] 738886
   = ((None, None, None, None), [''https://a.example/1''])"
  by (simp add: usable_def distance_def candidate_day_def get_article_data_def
      choose_best_article_def scan.simps absent_def)

text \<open>
  C2. If some usable candidate has distance 0 from the target day, then the list splits
  at the first such candidate \<open>c\<close>: \<open>choose_best_article\<close> returns the tuple built
  for \<open>c\<close>, it has downloaded the candidates up to \<open>c\<close> and none after it, and the
  date in the returned tuple is the target day.
\<close>

theorem choose_best_article_exact_match:
  assumes "\<exists>c\<in>set cs. usable newspaper c \<and> distance newspaper t c = 0"
  shows "\<exists>pre c post. cs = pre @ c # post \<and>
           (\<forall>p\<in>set pre. \<not> (usable newspaper p \<and> distance newspaper t p = 0)) \<and>
           usable newspaper c \<and> distance newspaper t c = 0 \<and>
           choose_best_article newspaper cs t = (pick newspaper c, map url (pre @ [c])) \<and>
           selected_date (fst (choose_best_article newspaper cs t)) = Some t"
proof -
  from assms obtain pre c post where
    split: "cs = pre @ c # post" and
    hit: "usable newspaper c \<and> distance newspaper t c = 0" and
    before: "\<forall>p\<in>set pre. \<not> (usable newspaper p \<and> distance newspaper t p = 0)"
    using split_list_first_prop [of cs "\<lambda>c. usable newspaper c \<and> distance newspaper t c = 0"]
    by blast
  have run: "choose_best_article newspaper cs t = (pick newspaper c, map url (pre @ [c]))"
    using scan_first_exact [OF before, of c post \<infinity> None "[]"] hit split
    by (simp add: choose_best_article_def)
  have "candidate_day newspaper c = Some t"
    using hit by (cases "candidate_day newspaper c") (simp_all add: distance_def zero_enat_def)
  then have day: "selected_date (pick newspaper c) = Some t"
    by (simp add: selected_date_def pick_def candidate_day_def split: prod.splits)
  show ?thesis using split hit before run day by auto
qed

lemma exact_candidates_run:
  "choose_best_article example_newspaper exact_candidates 738886 =
     ((Some ''Apple'', Some ''News'', Some ''https://a.example/2'', Some 738886),
      [''https://a.example/1'', ''https://a.example/broken'', ''https://a.example/2''])"
  by (simp add: choose_best_article_def exact_candidates_def scan.simps get_article_data_def
      example_newspaper_def zero_enat_def)

theorem choose_best_article_exact_match_witness:
  "(\<exists>c\<in>set exact_candidates.
      usable example_newspaper c \<and> distance example_newspaper 738886 c = 0) \<and>
   (\<exists>pre c post. exact_candidates = pre @ c # post \<and>
      (\<forall>p\<in>set pre. \<not> (usable example_newspaper p \<and> distance example_newspaper 738886 p = 0)) \<and>
      usable example_newspaper c \<and> distance example_newspaper 738886 c = 0 \<and>
      choose_best_article example_newspaper exact_candidates 738886
        = (pick example_newspaper c, map url (pre @ [c])) \<and>
      selected_date (fst (choose_best_article example_newspaper exact_candidates 738886))
        = Some 738886) \<and>
   fst (choose_best_article example_newspaper exact_candidates 738886) =
     (Some ''Apple'', Some ''News'', Some ''https://a.example/2'', Some 738886)"
proof -
  have h: "\<exists>c\<in>set exact_candidates.
      usable example_newspaper c \<and> distance example_newspaper 738886 c = 0"
    by (simp add: exact_candidates_def usable_def distance_def candidate_day_def
        get_article_data_def example_newspaper_def zero_enat_def)
  show ?thesis
    using h choose_best_article_exact_match [OF h] exact_candidates_run by simp
qed

text \<open>
  C3. If no usable candidate has distance 0 and some usable candidate has a finite
  distance, then \<open>choose_best_article\<close> downloads every candidate and returns the tuple
  built for a usable candidate \<open>c\<close> whose distance is least among the usable candidates,
  and every usable candidate before \<open>c\<close> in the list is strictly farther: \<open>c\<close> is the
  first to reach the minimum.
\<close>

theorem choose_best_article_nearest:
  assumes "\<forall>c\<in>set cs. usable newspaper c \<longrightarrow> distance newspaper t c \<noteq> 0"
    and "\<exists>c\<in>set cs. usable newspaper c \<and> distance newspaper t c \<noteq> \<infinity>"
  shows "\<exists>pre c post. cs = pre @ c # post \<and> usable newspaper c \<and>
           (\<forall>x\<in>set cs. usable newspaper x \<longrightarrow> distance newspaper t c \<le> distance newspaper t x) \<and>
           (\<forall>p\<in>set pre. usable newspaper p \<longrightarrow> distance newspaper t c < distance newspaper t p) \<and>
           choose_best_article newspaper cs t = (pick newspaper c, map url cs)"
proof -
  have "\<exists>c\<in>set cs. usable newspaper c \<and> distance newspaper t c < \<infinity>"
    using assms(2) by (auto simp: less_infinityE)
  from scan_min [OF assms(1) this, of None "[]"]
  show ?thesis by (auto simp: choose_best_article_def)
qed

lemma near_candidates_run:
  "choose_best_article example_newspaper near_candidates 738886 =
     ((Some ''Apple'', Some ''News'', Some ''https://a.example/2'', Some 738884),
      [''https://a.example/1'', ''https://a.example/broken'', ''https://a.example/2'',
       ''https://a.example/3'', ''https://a.example/undated''])"
  by (simp add: choose_best_article_def near_candidates_def scan.simps get_article_data_def
      example_newspaper_def zero_enat_def)

theorem choose_best_article_nearest_witness:
  "\<not> (\<exists>c\<in>set near_candidates.
        usable example_newspaper c \<and> distance example_newspaper 738886 c = 0) \<and>
   (\<exists>c\<in>set near_candidates.
      usable example_newspaper c \<and> distance example_newspaper 738886 c \<noteq> \<infinity>) \<and>
   (\<exists>pre c post. near_candidates = pre @ c # post \<and> usable example_newspaper c \<and>
      (\<forall>x\<in>set near_candidates. usable example_newspaper x \<longrightarrow>
         distance example_newspaper 738886 c \<le> distance example_newspaper 738886 x) \<and>
      (\<forall>p\<in>set pre. usable example_newspaper p \<longrightarrow>
         distance example_newspaper 738886 c < distance example_newspaper 738886 p) \<and>
      choose_best_article example_newspaper near_candidates 738886
        = (pick example_newspaper c, map url near_candidates)) \<and>
   fst (choose_best_article example_newspaper near_candidates 738886) =
     (Some ''Apple'', Some ''News'', Some ''https://a.example/2'', Some 738884)"
proof -
  have h1: "\<forall>c\<in>set near_candidates.
      usable example_newspaper c \<longrightarrow> distance example_newspaper 738886 c \<noteq> 0"
    by (simp add: near_candidates_def usable_def distance_def candidate_day_def
        get_article_data_def example_newspaper_def zero_enat_def)
  have h2: "\<exists>c\<in>set near_candidates.
      usable example_newspaper c \<and> distance example_newspaper 738886 c \<noteq> \<infinity>"
    by (simp add: near_candidates_def usable_def distance_def candidate_day_def
        get_article_data_def example_newspaper_def)
  have h1': "\<not> (\<exists>c\<in>set near_candidates.
        usable example_newspaper c \<and> distance example_newspaper 738886 c = 0)"
    using h1 by blast
  show ?thesis
    using h1' h2 choose_best_article_nearest [OF h1 h2] near_candidates_run by simp
qed

section \<open>Properties of the candidate list\<close>

lemma gather_Cons:
  "gather parse count (a # as) acc =
     (let acc' = (case candidate_of parse a of
                    Some c \<Rightarrow> if c \<notin> set acc then acc @ [c] else acc
                  | None \<Rightarrow> acc)
      in if int (length acc') \<ge> count then acc' else gather parse count as acc')"
  by (simp add: candidate_of_def Let_def split: option.splits)

declare gather.simps(2) [simp del]

lemma listed_Cons:
  "listed parse (a # as) =
     (case candidate_of parse a of Some c \<Rightarrow> c # listed parse as | None \<Rightarrow> listed parse as)"
  by (simp add: listed_def List.map_filter_simps split: option.splits)

lemma listed_Nil: "listed parse [] = []"
  by (simp add: listed_def List.map_filter_simps)

lemma set_first_seen: "set (first_seen xs) = set xs"
  by (induction xs) auto

lemma distinct_first_seen: "distinct (first_seen xs)"
  by (induction xs) (auto simp: set_first_seen)

lemma distinct_gather: "distinct acc \<Longrightarrow> distinct (gather parse count as acc)"
proof (induction as arbitrary: acc)
  case Nil
  then show ?case by simp
next
  case (Cons a as)
  show ?case
  proof (cases "candidate_of parse a")
    case None
    then show ?thesis using Cons by (simp add: gather_Cons)
  next
    case (Some c)
    have d: "distinct (if c \<notin> set acc then acc @ [c] else acc)"
      using Cons.prems by simp
    show ?thesis using Some Cons.IH [OF d] d by (simp add: gather_Cons Let_def)
  qed
qed

lemma filter_fresh_skip:
  "c \<in> set acc \<Longrightarrow>
   filter (\<lambda>y. y \<notin> set acc) (filter (\<lambda>y. y \<noteq> c) xs) = filter (\<lambda>y. y \<notin> set acc) xs"
  by (induction xs) auto

lemma filter_fresh_snoc:
  "filter (\<lambda>y. y \<notin> set acc) (filter (\<lambda>y. y \<noteq> c) xs) = filter (\<lambda>y. y \<notin> set (acc @ [c])) xs"
  by (induction xs) auto

lemma gather_shape:
  "acc @ filter (\<lambda>y. y \<notin> set acc) (first_seen (listed parse (a # as))) =
   (case candidate_of parse a of
      Some c \<Rightarrow> if c \<notin> set acc then acc @ [c] else acc
    | None \<Rightarrow> acc) @
   filter (\<lambda>y. y \<notin> set (case candidate_of parse a of
                            Some c \<Rightarrow> if c \<notin> set acc then acc @ [c] else acc
                          | None \<Rightarrow> acc))
     (first_seen (listed parse as))"
proof (cases "candidate_of parse a")
  case None
  then show ?thesis by (simp add: listed_Cons)
next
  case (Some c)
  show ?thesis
  proof (cases "c \<in> set acc")
    case True
    then show ?thesis using Some by (simp add: listed_Cons filter_fresh_skip [symmetric])
  next
    case False
    then show ?thesis using Some by (simp add: listed_Cons filter_fresh_snoc [symmetric])
  qed
qed

lemma gather_exact:
  "distinct acc \<Longrightarrow> int (length acc) < count \<Longrightarrow>
   gather parse count as acc =
     take (nat count) (acc @ filter (\<lambda>c. c \<notin> set acc) (first_seen (listed parse as)))"
proof (induction as arbitrary: acc)
  case Nil
  then show ?case by (simp add: listed_Nil)
next
  case (Cons a as)
  let ?acc' = "case candidate_of parse a of
      Some c \<Rightarrow> if c \<notin> set acc then acc @ [c] else acc
    | None \<Rightarrow> acc"
  have d: "distinct ?acc'" using Cons.prems(1) by (simp split: option.splits)
  have l: "int (length ?acc') \<le> count" using Cons.prems(2) by (simp split: option.splits)
  have run: "gather parse count (a # as) acc =
      (if int (length ?acc') \<ge> count then ?acc' else gather parse count as ?acc')"
    by (simp add: gather_Cons Let_def)
  show ?case
  proof (cases "int (length ?acc') \<ge> count")
    case True
    with l have "nat count = length ?acc'" by simp
    then have "take (nat count) (?acc' @ filter (\<lambda>y. y \<notin> set ?acc') (first_seen (listed parse as)))
        = ?acc'"
      by simp
    then show ?thesis using True run by (simp only: gather_shape [of acc parse a as] if_True)
  next
    case False
    then have "int (length ?acc') < count" by simp
    from Cons.IH [OF d this] False run
    show ?thesis by (simp only: gather_shape [of acc parse a as] if_False)
  qed
qed

lemma gather_at_once:
  "count \<le> 0 \<Longrightarrow> gather parse count as [] = listed parse (take 1 as)"
  by (cases as) (simp_all add: gather_Cons listed_Nil listed_Cons Let_def split: option.splits)

lemma scan_downloads:
  "snd (scan newspaper t cs bd bdata fetched) =
     fetched @ map url (take (Suc (length (takeWhile
        (\<lambda>c. \<not> (usable newspaper c \<and> distance newspaper t c = 0)) cs))) cs)"
proof (induction cs arbitrary: bd bdata fetched)
  case Nil
  show ?case by (simp split: option.splits)
next
  case (Cons c cs)
  show ?case
  proof (cases "usable newspaper c")
    case False
    then show ?thesis using Cons.IH by (simp add: scan_unusable)
  next
    case True
    show ?thesis
    proof (cases "distance newspaper t c = 0")
      case True
      then show ?thesis using \<open>usable newspaper c\<close> by (simp add: scan_exact)
    next
      case False
      show ?thesis
      proof (cases "distance newspaper t c < bd")
        case True
        then show ?thesis using \<open>usable newspaper c\<close> False Cons.IH by (simp add: scan_better)
      next
        case nb: False
        then show ?thesis using \<open>usable newspaper c\<close> False Cons.IH
          by (simp add: scan_not_better)
      qed
    qed
  qed
qed

lemma example_listed:
  "first_seen (listed example_parse example_page) =
     [\<lparr>url = ''https://news.google.com/articles/abc'', candidate_date = Some 736765\<rparr>,
      \<lparr>url = ''https://news.google.com/articles/abc'', candidate_date = None\<rparr>]"
  by (simp add: listed_Cons listed_Nil example_page_def example_parse_def candidate_of_def
      parse_date_from_string_def absolute_href_def Let_def)

text \<open>
  C7, as the code has it. The claim: the candidates are deduplicated by URL alone, so no
  two candidates handed to the selection share a URL. The loop tests
  \<open>candidate not in candidates\<close> on the whole dictionary, URL and date together, and
  stops once \<open>count\<close> candidates are kept. What holds: for \<open>count\<close> of 1 or more the
  returned list is the first \<open>count\<close> of the listed candidates without their repeats,
  each at its first place, where two candidates are the same when URL and date are both
  equal (for a smaller \<open>count\<close> the loop stops after the first element of the page); a
  page that fails to load gives no candidate; no two returned candidates are equal in
  URL and date; and \<open>choose_best_article\<close> downloads the candidates it is given one by
  one, in order, up to the first usable one at distance 0, a repeated URL each time it
  occurs.
\<close>

theorem get_candidate_articles_first_seen:
  "get_candidate_articles parse (Some articles) count =
     (if 1 \<le> count then take (nat count) (first_seen (listed parse articles))
      else listed parse (take 1 articles)) \<and>
   get_candidate_articles parse None count = [] \<and>
   distinct (get_candidate_articles parse page count) \<and>
   snd (choose_best_article newspaper candidates t) =
     map url (take (Suc (length (takeWhile
       (\<lambda>c. \<not> (usable newspaper c \<and> distance newspaper t c = 0)) candidates))) candidates)"
proof -
  have a: "get_candidate_articles parse (Some articles) count =
     (if 1 \<le> count then take (nat count) (first_seen (listed parse articles))
      else listed parse (take 1 articles))"
  proof (cases "1 \<le> count")
    case True
    then have "int (length ([] :: candidate list)) < count" by simp
    from gather_exact [OF _ this, of parse articles] True
    show ?thesis by (simp add: get_candidate_articles_def)
  next
    case False
    then have "count \<le> 0" by simp
    from gather_at_once [OF this, of parse articles] False
    show ?thesis by (simp add: get_candidate_articles_def)
  qed
  have b: "get_candidate_articles parse None count = []"
    by (simp add: get_candidate_articles_def)
  have c: "distinct (get_candidate_articles parse page count)"
    using distinct_gather [of "[]" parse count]
    by (simp add: get_candidate_articles_def split: option.splits)
  have d: "snd (choose_best_article newspaper candidates t) =
     map url (take (Suc (length (takeWhile
       (\<lambda>c. \<not> (usable newspaper c \<and> distance newspaper t c = 0)) candidates))) candidates)"
    using scan_downloads [of newspaper t candidates \<infinity> None "[]"]
    by (simp add: choose_best_article_def)
  show ?thesis using a b c d by blast
qed

theorem get_candidate_articles_first_seen_witness:
  "get_candidate_articles example_parse (Some example_page) 6 =
     [\<lparr>url = ''https://news.google.com/articles/abc'', candidate_date = Some 736765\<rparr>,
      \<lparr>url = ''https://news.google.com/articles/abc'', candidate_date = None\<rparr>] \<and>
   get_candidate_articles example_parse (Some example_page) 1 =
     [\<lparr>url = ''https://news.google.com/articles/abc'', candidate_date = Some 736765\<rparr>] \<and>
   get_candidate_articles example_parse (Some example_page) 0 =
     [\<lparr>url = ''https://news.google.com/articles/abc'', candidate_date = Some 736765\<rparr>]"
proof -
  have six: "get_candidate_articles example_parse (Some example_page) 6 =
      take (nat 6) (first_seen (listed example_parse example_page))"
    using get_candidate_articles_first_seen [of example_parse example_page 6] by simp
  have one: "get_candidate_articles example_parse (Some example_page) 1 =
      take (nat 1) (first_seen (listed example_parse example_page))"
    using get_candidate_articles_first_seen [of example_parse example_page 1] by simp
  have none: "get_candidate_articles example_parse (Some example_page) 0 =
      listed example_parse (take 1 example_page)"
    using get_candidate_articles_first_seen [of example_parse example_page 0] by simp
  have first: "listed example_parse (take 1 example_page) =
      [\<lparr>url = ''https://news.google.com/articles/abc'', candidate_date = Some 736765\<rparr>]"
    by (simp add: listed_Cons listed_Nil example_page_def example_parse_def candidate_of_def
        parse_date_from_string_def absolute_href_def Let_def)
  show ?thesis using six one none first by (simp add: example_listed)
qed

text \<open>
  C7, the claim as stated fails: two elements with one address, one dated and one not,
  give two candidates with the same URL, and \<open>choose_best_article\<close> downloads that URL
  twice.
\<close>

theorem same_url_scored_twice:
  "get_candidate_articles example_parse (Some example_page) 6 =
     [\<lparr>url = ''https://news.google.com/articles/abc'', candidate_date = Some 736765\<rparr>,
      \<lparr>url = ''https://news.google.com/articles/abc'', candidate_date = None\<rparr>] \<and>
   \<not> distinct (map url (get_candidate_articles example_parse (Some example_page) 6)) \<and>
   snd (choose_best_article example_newspaper
          (get_candidate_articles example_parse (Some example_page) 6) 738000) =
     [''https://news.google.com/articles/abc'', ''https://news.google.com/articles/abc'']"
proof -
  have run: "get_candidate_articles example_parse (Some example_page) 6 =
     [\<lparr>url = ''https://news.google.com/articles/abc'', candidate_date = Some 736765\<rparr>,
      \<lparr>url = ''https://news.google.com/articles/abc'', candidate_date = None\<rparr>]"
    by (simp add: get_candidate_articles_def example_page_def example_parse_def gather_Cons
        candidate_of_def parse_date_from_string_def absolute_href_def Let_def)
  show ?thesis
    unfolding run
    by (simp add: choose_best_article_def scan.simps get_article_data_def
        example_newspaper_def zero_enat_def)
qed

section \<open>Properties of the scheduler and its checkpoints\<close>

subsection \<open>The loop over the completed futures\<close>

lemma build_dates_eq: "build_dates c e ds = ds @ [c..e]"
proof (induction c e ds rule: build_dates.induct)
  case (1 c e ds)
  show ?case
  proof (cases "c \<le> e")
    case True
    then have "[c..e] = c # [c + 1..e]" by (simp add: upto_rec1)
    with True "1.IH" show ?thesis by (subst build_dates.simps) simp
  next
    case False
    then show ?thesis by (subst build_dates.simps) simp
  qed
qed

lemma submit_all_pool: "fst (submit_all pool days f2d) = pool @ days"
  by (induction days arbitrary: pool f2d) simp_all

lemma save_articles_files:
  "files (save_articles s articles filename) = (files s)(filename \<mapsto> json_dump articles)"
  by (simp add: save_articles_def save_articles_states_def open_w_def write_text_def Let_def)

lemma save_articles_written:
  "written (save_articles s articles filename) =
     written s @ [(filename, (files s)(filename \<mapsto> json_dump articles))]"
  by (simp add: save_articles_def save_articles_states_def open_w_def write_text_def Let_def)

lemma save_articles_fields:
  "daily_articles (save_articles s articles filename) = daily_articles s"
  "submitted (save_articles s articles filename) = submitted s"
  "flushed (save_articles s articles filename) = flushed s @ [(filename, articles)]"
  "stdout (save_articles s articles filename) = stdout s @ [Saved (length articles) filename]"
  by (simp_all add: save_articles_def Let_def)

lemma map_prefixes: "map f (prefixes xs) = f [] # map f (tl (prefixes xs))"
  by (cases xs) simp_all

lemma collect_unknown:
  "map_of f2d future = None \<Longrightarrow> collect_results f2d s (Done future out # es) = (s, Errored)"
  by simp

lemma collect_raised:
  "map_of f2d future = Some day \<Longrightarrow>
   collect_results f2d s (Done future Raised # es) =
   collect_results f2d (s\<lparr>stdout := stdout s @ [Day_exception day]\<rparr>) es"
  by simp

lemma collect_nothing:
  "map_of f2d future = Some day \<Longrightarrow>
   collect_results f2d s (Done future (Returned None) # es) = collect_results f2d s es"
  by simp

lemma collect_found:
  "map_of f2d future = Some day \<Longrightarrow>
   collect_results f2d s (Done future (Returned (Some result)) # es) =
   collect_results f2d
     (save_articles (s\<lparr>daily_articles := daily_articles s @ [result]\<rparr>)
        (daily_articles s @ [result]) partial_filename) es"
  by (simp add: Let_def)

declare collect_results.simps(4) [simp del]

lemma collect_induct [case_names Nil Interrupt Failure Unknown Raised Nothing Found]:
  assumes "\<And>s. P s []"
    and "\<And>s es. P s (KeyboardInterrupt # es)"
    and "\<And>s es. P s (Failure # es)"
    and "\<And>s future out es. map_of f2d future = None \<Longrightarrow> P s (Done future out # es)"
    and "\<And>s future day es. map_of f2d future = Some day \<Longrightarrow>
           P (s\<lparr>stdout := stdout s @ [Day_exception day]\<rparr>) es \<Longrightarrow>
           P s (Done future Raised # es)"
    and "\<And>s future day es. map_of f2d future = Some day \<Longrightarrow> P s es \<Longrightarrow>
           P s (Done future (Returned None) # es)"
    and "\<And>s future day result es. map_of f2d future = Some day \<Longrightarrow>
           P (save_articles (s\<lparr>daily_articles := daily_articles s @ [result]\<rparr>)
                (daily_articles s @ [result]) partial_filename) es \<Longrightarrow>
           P s (Done future (Returned (Some result)) # es)"
  shows "P (s :: 'a run) (events :: 'a event list)"
proof (induction events arbitrary: s)
  case Nil
  show ?case by (rule assms(1))
next
  case (Cons e es)
  show ?case
  proof (cases e)
    case KeyboardInterrupt
    then show ?thesis by (simp add: assms(2))
  next
    case Failure
    then show ?thesis by (simp add: assms(3))
  next
    case (Done future out)
    show ?thesis
    proof (cases "map_of f2d future")
      case None
      then show ?thesis using Done by (simp add: assms(4))
    next
      case (Some day)
      show ?thesis
      proof (cases out)
        case Raised
        then show ?thesis using Done Some Cons.IH by (simp add: assms(5))
      next
        case (Returned r)
        show ?thesis
        proof (cases r)
          case None
          then show ?thesis using Done Some Returned Cons.IH by (simp add: assms(6))
        next
          case (Some result)
          then show ?thesis using Done \<open>map_of f2d future = Some day\<close> Returned Cons.IH
            by (simp add: assms(7))
        qed
      qed
    qed
  qed
qed

lemma collect_results_submitted:
  "submitted (fst (collect_results f2d s events)) = submitted s"
  by (induction s events rule: collect_induct [where f2d = f2d])
     (simp_all add: collect_unknown collect_raised collect_nothing collect_found
        save_articles_fields)

lemma collect_results_daily:
  "daily_articles (fst (collect_results f2d s events)) =
     daily_articles s @ found (takeWhile (served f2d) events)"
  by (induction s events rule: collect_induct [where f2d = f2d])
     (simp_all add: collect_unknown collect_raised collect_nothing collect_found
        save_articles_fields)

lemma collect_results_flushed:
  "flushed (fst (collect_results f2d s events)) =
     flushed s @ map (\<lambda>ys. (partial_filename, daily_articles s @ ys))
                   (tl (prefixes (found (takeWhile (served f2d) events))))"
  by (induction s events rule: collect_induct [where f2d = f2d])
     (simp_all add: collect_unknown collect_raised collect_nothing collect_found
        save_articles_fields map_prefixes comp_def)

lemma collect_results_files:
  "files (fst (collect_results f2d s events)) =
     (if found (takeWhile (served f2d) events) = [] then files s
      else (files s)(partial_filename \<mapsto>
             json_dump (daily_articles s @ found (takeWhile (served f2d) events))))"
  by (induction s events rule: collect_induct [where f2d = f2d])
     (auto simp add: collect_unknown collect_raised collect_nothing collect_found
        save_articles_fields save_articles_files fun_eq_iff)

lemma collect_results_written:
  "written (fst (collect_results f2d s events)) =
     written s @ map (\<lambda>ys. (partial_filename,
                             (files s)(partial_filename \<mapsto> json_dump (daily_articles s @ ys))))
                   (tl (prefixes (found (takeWhile (served f2d) events))))"
  by (induction s events rule: collect_induct [where f2d = f2d])
     (auto simp add: collect_unknown collect_raised collect_nothing collect_found
        save_articles_fields save_articles_files save_articles_written map_prefixes comp_def
        fun_eq_iff)

lemma collect_results_interrupt:
  "collect_results f2d s (pre @ KeyboardInterrupt # post) =
   collect_results f2d s (pre @ [KeyboardInterrupt])"
  by (induction s pre rule: collect_induct [where f2d = f2d])
     (simp_all add: collect_unknown collect_raised collect_nothing collect_found)

lemma collect_results_quiet:
  "Interrupted_by_user \<notin> set (stdout s) \<Longrightarrow>
   Interrupted_by_user \<notin> set (stdout (fst (collect_results f2d s events)))"
  by (induction s events rule: collect_induct [where f2d = f2d])
     (simp_all add: collect_unknown collect_raised collect_nothing collect_found
        save_articles_fields)

lemma collect_results_ending:
  "snd (collect_results f2d s events) = ending_of (dropWhile (served f2d) events)"
  by (induction s events rule: collect_induct [where f2d = f2d])
     (simp_all add: collect_unknown collect_raised collect_nothing collect_found)


subsection \<open>The whole run\<close>

lemma main_submitted: "submitted (fst (main fs sd ed events)) = [sd..ed]"
  by (simp add: main_def Let_def case_prod_unfold save_articles_fields collect_results_submitted
      submit_all_pool build_dates_eq split: ending.splits)

lemma main_daily: "daily_articles (fst (main fs sd ed events)) = collected sd ed events"
  by (simp add: main_def Let_def case_prod_unfold save_articles_fields collect_results_daily
      collected_def future_table_def split: ending.splits)

lemma main_flushed:
  "flushed (fst (main fs sd ed events)) =
     map (\<lambda>ys. (partial_filename, ys)) (tl (prefixes (collected sd ed events))) @
     [(default_filename, collected sd ed events)]"
  by (simp add: main_def Let_def case_prod_unfold save_articles_fields collect_results_daily
      collect_results_flushed collected_def future_table_def split: ending.splits)

lemma main_written:
  "written (fst (main fs sd ed events)) =
     map (\<lambda>ys. (partial_filename, fs(partial_filename \<mapsto> json_dump ys)))
       (tl (prefixes (collected sd ed events))) @
     [(default_filename,
       (if collected sd ed events = [] then fs
        else fs(partial_filename \<mapsto> json_dump (collected sd ed events)))
       (default_filename \<mapsto> json_dump (collected sd ed events)))]"
  by (simp add: main_def Let_def case_prod_unfold save_articles_fields save_articles_written
      collect_results_daily collect_results_written collect_results_files collected_def
      future_table_def split: ending.splits)

lemma filenames_differ: "partial_filename \<noteq> default_filename"
  by (simp add: partial_filename_def default_filename_def)

lemma main_files:
  "files (fst (main fs sd ed events)) =
     (if collected sd ed events = [] then fs
      else fs(partial_filename \<mapsto> json_dump (collected sd ed events)))
     (default_filename \<mapsto> json_dump (collected sd ed events))"
  by (simp add: main_def Let_def case_prod_unfold save_articles_fields save_articles_files
      collect_results_daily collect_results_files collected_def future_table_def
      split: ending.splits)

lemma main_ending:
  "snd (main fs sd ed events) =
     ending_of (dropWhile (served (future_table sd ed)) events)"
  by (simp add: main_def Let_def case_prod_unfold collect_results_ending future_table_def)

lemma main_interrupt:
  "main fs sd ed (pre @ KeyboardInterrupt # post) = main fs sd ed (pre @ [KeyboardInterrupt])"
  by (simp add: main_def collect_results_interrupt [of _ _ pre post])

lemma main_stdout:
  "(Interrupted_by_user \<in> set (stdout (fst (main fs sd ed events)))) =
   (snd (main fs sd ed events) = Interrupted)"
proof -
  let ?s0 = "\<lparr>daily_articles = [], files = fs, stdout = [],
              submitted = fst (submit_all [] (build_dates sd ed []) []), flushed = [],
              written = []\<rparr> :: 'a run"
  have "Interrupted_by_user \<notin> set (stdout (fst (collect_results (future_table sd ed) ?s0 events)))"
    by (rule collect_results_quiet) simp
  then show ?thesis
    by (simp add: main_def Let_def case_prod_unfold save_articles_fields future_table_def
        split: ending.splits)
qed

lemma sorted_wrt_prefixes: "sorted_wrt prefix (prefixes xs)"
  by (induction xs) (auto simp: sorted_wrt_map)

lemma sorted_wrt_tl: "sorted_wrt P xs \<Longrightarrow> sorted_wrt P (tl xs)"
  by (cases xs) simp_all

lemma set_tl_prefixes: "ys \<in> set (tl (prefixes xs)) \<Longrightarrow> prefix ys xs"
  using in_set_prefixes list.set_sel(2) prefixes_not_Nil by metis

lemma objects_dump: "objects (map Object xs @ [RBracket]) = Some xs"
  by (induction xs) simp_all

lemma json_load_dump: "json_load (json_dump xs) = Some xs"
  by (simp add: json_dump_def objects_dump)

lemma prefixes_chain: "sorted_wrt prefix (tl (prefixes xs) @ [xs])"
  by (simp add: sorted_wrt_append sorted_wrt_tl sorted_wrt_prefixes set_tl_prefixes)

lemma main_reads:
  "map snapshot_read (written (fst (main fs sd ed events))) =
     map Some (tl (prefixes (collected sd ed events)) @ [collected sd ed events])"
  by (simp add: main_written snapshot_read_def json_load_dump comp_def)

lemma example_future_table:
  "future_table 738886 738888 = [(0, 738886), (1, 738887), (2, 738888)]"
  by (simp add: future_table_def build_dates_eq)

lemma example_run_table:
  "future_table 738886 738889 = [(0, 738886), (1, 738887), (2, 738888), (3, 738889)]"
  by (simp add: future_table_def build_dates_eq)

lemma example_collected: "collected 738886 738889 example_events = [''first'', ''second'']"
  by (simp add: collected_def example_run_table example_events_def)

lemma example_flushed:
  "flushed (fst (main no_files 738886 738889 example_events)) =
     [(partial_filename, [''first'']), (partial_filename, [''first'', ''second'']),
      (default_filename, [''first'', ''second''])]"
  by (simp add: main_flushed example_collected)

lemma example_reads:
  "map snapshot_read (written (fst (main no_files 738886 738889 example_events))) =
     [Some [''first''], Some [''first'', ''second''], Some [''first'', ''second'']]"
  by (simp add: main_reads example_collected)

lemma takeWhile_served_interrupt:
  "takeWhile (served t) (pre @ [KeyboardInterrupt]) = takeWhile (served t) pre"
  by (induction pre) simp_all

lemma dropWhile_served_interrupt:
  "dropWhile (served t) (takeWhile (served t) events @ KeyboardInterrupt # post) =
     KeyboardInterrupt # post"
  by (induction events) simp_all

lemma filter_default_partial:
  "filter (\<lambda>w. fst w = default_filename) (map (\<lambda>ys. (partial_filename, ys)) xss) = []"
  using filenames_differ by (induction xss) simp_all

subsection \<open>The claims about the run\<close>

text \<open>
  C4. For a range with \<open>start_date \<le> end_date\<close> the days handed to
  \<open>executor.submit\<close> are the days of the range, each once and in order: their number is
  the number of days of the range, no day occurs twice, and every day of the range occurs.
\<close>

theorem scheduler_submits_each_day:
  assumes "start_date \<le> end_date"
  shows "submitted (fst (main fs start_date end_date events)) = [start_date..end_date] \<and>
         length (submitted (fst (main fs start_date end_date events)))
           = nat (end_date - start_date + 1) \<and>
         distinct (submitted (fst (main fs start_date end_date events))) \<and>
         set (submitted (fst (main fs start_date end_date events))) = {start_date..end_date}"
  using assms by (simp add: main_submitted)

theorem scheduler_submits_each_day_witness:
  "(737166::int) \<le> 739317 \<and>
   length (submitted (fst (main no_files 737166 739317 []))) = 2152 \<and>
   distinct (submitted (fst (main no_files 737166 739317 [])))"
proof -
  have h: "(737166::int) \<le> 739317" by simp
  note run = scheduler_submits_each_day [OF h, of no_files "[]"]
  have "length (submitted (fst (main no_files 737166 739317 []))) = nat (739317 - 737166 + 1)"
    using run by (elim conjE)
  then have "length (submitted (fst (main no_files 737166 739317 []))) = 2152" by simp
  moreover have "distinct (submitted (fst (main no_files 737166 739317 [])))"
    using run by (elim conjE)
  ultimately show ?thesis using h by blast
qed

text \<open>
  C5. The snapshots written in the course of a run, in the order of the calls of
  \<open>save_articles\<close>: what a reader gets from the file just written is the whole list
  that was handed over, these lists are the result set after its first, second, ...
  article and at the end the whole result set (the articles the taken futures returned,
  in the order of completion: the list only grows at its end), the file system at the
  end of the run is the one the last snapshot left, and from each snapshot to the next
  the list read back is an initial part of the next one: it never gets shorter and no
  article of it is lost.
\<close>

theorem snapshots_never_shrink:
  "map snapshot_read (written (fst (main fs start_date end_date events))) =
     map (\<lambda>w. Some (snd w)) (flushed (fst (main fs start_date end_date events))) \<and>
   map snapshot_read (written (fst (main fs start_date end_date events))) =
     map Some (tl (prefixes (collected start_date end_date events)) @
               [collected start_date end_date events]) \<and>
   daily_articles (fst (main fs start_date end_date events))
     = collected start_date end_date events \<and>
   files (fst (main fs start_date end_date events))
     = snd (last (written (fst (main fs start_date end_date events)))) \<and>
   (\<forall>k. Suc k < length (written (fst (main fs start_date end_date events))) \<longrightarrow>
      (\<exists>a b. snapshot_read (written (fst (main fs start_date end_date events)) ! k) = Some a \<and>
             snapshot_read (written (fst (main fs start_date end_date events)) ! Suc k) = Some b \<and>
             prefix a b \<and> length a \<le> length b))"
proof -
  let ?W = "written (fst (main fs start_date end_date events))"
  let ?L = "tl (prefixes (collected start_date end_date events)) @
            [collected start_date end_date events]"
  have reads: "map snapshot_read ?W = map Some ?L" by (rule main_reads)
  have handed: "map snapshot_read ?W
      = map (\<lambda>w. Some (snd w)) (flushed (fst (main fs start_date end_date events)))"
    by (simp add: main_reads main_flushed comp_def)
  have daily: "daily_articles (fst (main fs start_date end_date events))
      = collected start_date end_date events"
    by (rule main_daily)
  have final: "files (fst (main fs start_date end_date events)) = snd (last ?W)"
    by (simp add: main_files main_written)
  have len: "length ?W = length ?L"
    using reads by (metis length_map)
  have step: "\<exists>a b. snapshot_read (?W ! k) = Some a \<and> snapshot_read (?W ! Suc k) = Some b \<and>
      prefix a b \<and> length a \<le> length b" if k: "Suc k < length ?W" for k
  proof -
    have r0: "snapshot_read (?W ! k) = Some (?L ! k)"
      using k len nth_map [of k ?W snapshot_read] nth_map [of k ?L Some] reads by simp
    have r1: "snapshot_read (?W ! Suc k) = Some (?L ! Suc k)"
      using k len nth_map [of "Suc k" ?W snapshot_read] nth_map [of "Suc k" ?L Some] reads
      by simp
    have "prefix (?L ! k) (?L ! Suc k)"
      using sorted_wrt_nth_less [OF prefixes_chain, of k "Suc k"] k len by simp
    then show ?thesis using r0 r1 by (auto simp: prefix_length_le)
  qed
  show ?thesis using handed reads daily final step by blast
qed

theorem snapshots_never_shrink_witness:
  "Suc 0 < length (written (fst (main no_files 738886 738889 example_events))) \<and>
   (\<exists>a b. snapshot_read (written (fst (main no_files 738886 738889 example_events)) ! 0) = Some a \<and>
          snapshot_read (written (fst (main no_files 738886 738889 example_events)) ! Suc 0)
            = Some b \<and>
          prefix a b \<and> length a \<le> length b) \<and>
   map snapshot_read (written (fst (main no_files 738886 738889 example_events))) =
     [Some [''first''], Some [''first'', ''second''], Some [''first'', ''second'']]"
proof -
  have h: "Suc 0 < length (written (fst (main no_files 738886 738889 example_events)))"
    using example_reads by (metis length_map length_Cons list.size(3) lessI Suc_less_eq zero_less_Suc)
  from snapshots_never_shrink [of no_files 738886 738889 example_events] h example_reads
  show ?thesis by blast
qed

text \<open>
  C6, as the code has it. The claim: every flush writes the whole result set and replaces
  the previous snapshot atomically, so that no reader sees a half-written file. What
  holds: \<open>save_articles\<close> writes the whole list it is given (a reader of the finished
  file gets that list back), into the named file itself: \<open>open(filename, "w")\<close> first
  cuts the file to length zero and \<open>json.dump\<close> then writes the text. There is no
  temporary file and no rename.
\<close>

theorem save_articles_overwrites_in_place:
  "save_articles_states fs articles filename =
     [fs(filename \<mapsto> []), fs(filename \<mapsto> json_dump articles)] \<and>
   files (save_articles s articles filename) = (files s)(filename \<mapsto> json_dump articles) \<and>
   json_load (json_dump articles) = Some articles"
  by (simp add: save_articles_states_def open_w_def write_text_def Let_def save_articles_files
      json_load_dump)

text \<open>
  C6, the claim as stated fails: while the second snapshot is being saved over the first,
  the file is empty after the \<open>open\<close>, and a reader at that moment gets neither the old
  snapshot nor the new one but a decoding error.
\<close>

theorem reader_sees_truncated_file:
  "map_option json_load (one_snapshot partial_filename) = Some (Some [''first'']) \<and>
   map (\<lambda>st. map_option json_load (st partial_filename))
     (save_articles_states one_snapshot [''first'', ''second''] partial_filename)
   = [Some None, Some (Some [''first'', ''second''])]"
  by (simp add: one_snapshot_def save_articles_states_def open_w_def write_text_def Let_def
      json_load_dump)

text \<open>
  C8, as the code has it. The claim: on \<open>KeyboardInterrupt\<close> the scheduler stops, does
  one final flush and exits with a status that tells an interrupted run from a completed
  one. What holds: nothing that completes after the interruption is taken; the list that
  is flushed is what a run over the events before the interruption collects; a run whose
  taken events are followed by \<open>KeyboardInterrupt\<close> ends in the handler of that
  exception; every run, whatever its ending, makes exactly one flush to the default file,
  as its last flush, with the whole of \<open>daily_articles\<close>; the interrupted run is told
  apart by the printed line alone, and the exit status is 0 for every ending.
\<close>

theorem interrupted_run_flushes_once:
  "main fs start_date end_date (pre @ KeyboardInterrupt # post)
     = main fs start_date end_date (pre @ [KeyboardInterrupt]) \<and>
   daily_articles (fst (main fs start_date end_date (pre @ [KeyboardInterrupt])))
     = daily_articles (fst (main fs start_date end_date pre)) \<and>
   snd (main fs start_date end_date
          (takeWhile (served (future_table start_date end_date)) events @ KeyboardInterrupt # post))
     = Interrupted \<and>
   last (flushed (fst (main fs start_date end_date events)))
     = (default_filename, daily_articles (fst (main fs start_date end_date events))) \<and>
   length (filter (\<lambda>w. fst w = default_filename)
             (flushed (fst (main fs start_date end_date events)))) = 1 \<and>
   files (fst (main fs start_date end_date events)) default_filename
     = Some (json_dump (daily_articles (fst (main fs start_date end_date events)))) \<and>
   (Interrupted_by_user \<in> set (stdout (fst (main fs start_date end_date events))))
     = (snd (main fs start_date end_date events) = Interrupted) \<and>
   exit_status (main fs start_date end_date events) = 0"
proof -
  have a: "main fs start_date end_date (pre @ KeyboardInterrupt # post)
     = main fs start_date end_date (pre @ [KeyboardInterrupt])"
    by (rule main_interrupt)
  have b: "daily_articles (fst (main fs start_date end_date (pre @ [KeyboardInterrupt])))
     = daily_articles (fst (main fs start_date end_date pre))"
    by (simp add: main_daily collected_def takeWhile_served_interrupt)
  have c: "snd (main fs start_date end_date
          (takeWhile (served (future_table start_date end_date)) events @ KeyboardInterrupt # post))
     = Interrupted"
    by (simp add: main_ending dropWhile_served_interrupt)
  have d: "last (flushed (fst (main fs start_date end_date events)))
     = (default_filename, daily_articles (fst (main fs start_date end_date events)))"
    by (simp add: main_flushed main_daily)
  have e: "length (filter (\<lambda>w. fst w = default_filename)
             (flushed (fst (main fs start_date end_date events)))) = 1"
    by (simp only: main_flushed filter_append filter_default_partial) simp
  have f: "files (fst (main fs start_date end_date events)) default_filename
     = Some (json_dump (daily_articles (fst (main fs start_date end_date events))))"
    by (simp add: main_files main_daily)
  have g: "(Interrupted_by_user \<in> set (stdout (fst (main fs start_date end_date events))))
     = (snd (main fs start_date end_date events) = Interrupted)"
    by (rule main_stdout)
  have h: "exit_status (main fs start_date end_date events) = 0"
    by (simp add: exit_status_def split: ending.splits)
  show ?thesis using a b c d e f g h by blast
qed

text \<open>
  C8, the claim as stated fails: a run interrupted after its first result and a run that
  completes both leave with status 0.
\<close>

theorem interrupted_and_completed_exit_alike:
  "snd (main no_files 738886 738888 [Done 0 (Returned (Some ''first'')), KeyboardInterrupt])
     = Interrupted \<and>
   exit_status (main no_files 738886 738888 [Done 0 (Returned (Some ''first'')), KeyboardInterrupt])
     = 0 \<and>
   snd (main no_files 738886 738888 [Done 0 (Returned (Some ''first''))]) = Completed \<and>
   exit_status (main no_files 738886 738888 [Done 0 (Returned (Some ''first''))]) = 0"
  by (simp add: main_ending example_future_table exit_status_def)

text \<open>
  C10. The two file names differ. The result set of a run is what the taken futures of
  \<open>events\<close> returned, in the order of completion. The calls of \<open>save_articles\<close>
  are one call on the partial file for each of these articles, with the result set as it
  is then, followed by a single call on the default file with the whole result set. Each
  call for an article changes the partial file alone; the final call changes the default
  file alone and leaves the partial file as the last call for an article wrote it, or as
  it was before the run when no article was collected. So at the end the default file
  holds the whole result set and the partial file the state of the last flush after a
  result.
\<close>

theorem two_snapshot_files:
  "partial_filename \<noteq> default_filename \<and>
   daily_articles (fst (main fs start_date end_date events))
     = collected start_date end_date events \<and>
   flushed (fst (main fs start_date end_date events)) =
     map (\<lambda>ys. (partial_filename, ys)) (tl (prefixes (collected start_date end_date events))) @
     [(default_filename, collected start_date end_date events)] \<and>
   written (fst (main fs start_date end_date events)) =
     map (\<lambda>ys. (partial_filename, fs(partial_filename \<mapsto> json_dump ys)))
       (tl (prefixes (collected start_date end_date events))) @
     [(default_filename,
       (if collected start_date end_date events = [] then fs
        else fs(partial_filename \<mapsto> json_dump (collected start_date end_date events)))
       (default_filename \<mapsto> json_dump (collected start_date end_date events)))] \<and>
   files (fst (main fs start_date end_date events))
     = snd (last (written (fst (main fs start_date end_date events)))) \<and>
   files (fst (main fs start_date end_date events)) default_filename
     = Some (json_dump (collected start_date end_date events)) \<and>
   files (fst (main fs start_date end_date events)) partial_filename
     = (if collected start_date end_date events = [] then fs partial_filename
        else Some (json_dump (collected start_date end_date events)))"
proof -
  have a: "partial_filename \<noteq> default_filename" by (rule filenames_differ)
  have b: "daily_articles (fst (main fs start_date end_date events))
     = collected start_date end_date events"
    by (rule main_daily)
  note c = main_flushed [of fs start_date end_date events]
  note d = main_written [of fs start_date end_date events]
  have e: "files (fst (main fs start_date end_date events))
     = snd (last (written (fst (main fs start_date end_date events))))"
    by (simp add: main_files main_written)
  have f: "files (fst (main fs start_date end_date events)) default_filename
     = Some (json_dump (collected start_date end_date events))"
    by (simp add: main_files)
  have g: "files (fst (main fs start_date end_date events)) partial_filename
     = (if collected start_date end_date events = [] then fs partial_filename
        else Some (json_dump (collected start_date end_date events)))"
    using a by (simp add: main_files)
  show ?thesis using a b c d e f g by blast
qed

theorem two_snapshot_files_witness:
  "collected 738886 738889 example_events = [''first'', ''second''] \<and>
   flushed (fst (main no_files 738886 738889 example_events)) =
     [(partial_filename, [''first'']), (partial_filename, [''first'', ''second'']),
      (default_filename, [''first'', ''second''])] \<and>
   written (fst (main no_files 738886 738889 example_events)) =
     [(partial_filename, no_files(partial_filename \<mapsto> json_dump [''first''])),
      (partial_filename, no_files(partial_filename \<mapsto> json_dump [''first'', ''second''])),
      (default_filename,
       no_files(partial_filename \<mapsto> json_dump [''first'', ''second''],
                default_filename \<mapsto> json_dump [''first'', ''second'']))] \<and>
   files (fst (main no_files 738886 738889 example_events)) partial_filename
     = Some (json_dump [''first'', ''second'']) \<and>
   files (fst (main no_files 738886 738889 example_events)) default_filename
     = Some (json_dump [''first'', ''second''])"
  using two_snapshot_files [of no_files 738886 738889 example_events]
  by (simp add: example_collected)

section \<open>Properties of the sentiment classes\<close>

lemma analyze_sentiment_scores:
  "snd (analyze_sentiment lib polarity_scores txt) = polarity_scores (clean_text lib txt)"
  by (simp add: analyze_sentiment_def Let_def)

lemma analyze_sentiment_class:
  "well_classified (compound (snd (analyze_sentiment lib polarity_scores txt)))
     (fst (analyze_sentiment lib polarity_scores txt))"
  by (simp add: analyze_sentiment_def Let_def well_classified_def)

lemma setdefault_append_nonempty:
  "\<forall>e\<in>set acc. snd e \<noteq> [] \<Longrightarrow> \<forall>e\<in>set (setdefault_append acc k v). snd e \<noteq> []"
  by (induction acc k v rule: setdefault_append.induct) auto

lemma group_by_date_nonempty:
  "\<forall>e\<in>set acc. snd e \<noteq> [] \<Longrightarrow> \<forall>e\<in>set (group_by_date lib articles acc). snd e \<noteq> []"
proof (induction articles arbitrary: acc)
  case Nil
  then show ?case by simp
next
  case (Cons a articles)
  show ?case
  proof (cases "item_compound a")
    case None
    then show ?thesis using Cons by (simp add: Let_def)
  next
    case (Some c)
    then show ?thesis
      using Cons.IH [OF setdefault_append_nonempty [OF Cons.prems]]
      by (simp add: Let_def)
  qed
qed

lemma classify_dates_total:
  "\<forall>e\<in>set groups. snd e \<noteq> [] \<Longrightarrow> \<exists>agg. classify_dates to_float groups = Some agg"
proof (induction groups)
  case Nil
  then show ?case by simp
next
  case (Cons g groups)
  obtain d compounds where g: "g = (d, compounds)" by (cases g)
  from Cons.prems g have ne: "compounds \<noteq> []" by simp
  from Cons obtain agg where "classify_dates to_float groups = Some agg" by auto
  with g ne show ?case by (simp add: mean_def Let_def)
qed

lemma classify_dates_class:
  "classify_dates to_float groups = Some agg \<Longrightarrow>
   \<forall>e\<in>set agg. well_classified (fst (snd e)) (snd (snd e))"
proof (induction groups arbitrary: agg)
  case Nil
  then show ?case by simp
next
  case (Cons g groups)
  obtain d compounds where g: "g = (d, compounds)" by (cases g)
  from Cons.prems g obtain avg rest where
    m: "mean to_float compounds = Some avg" and
    r: "classify_dates to_float groups = Some rest" and
    a: "agg = (d, avg,
               (if avg \<ge> 0.01 then ''Positive'' else if avg \<le> - 0.00 then ''Negative''
                else ''Neutral'')) # rest"
    by (auto simp: Let_def split: option.splits)
  have "well_classified avg
      (if avg \<ge> 0.01 then ''Positive'' else if avg \<le> - 0.00 then ''Negative'' else ''Neutral'')"
    by (simp add: well_classified_def)
  with Cons.IH [OF r] a show ?case by simp
qed

lemma example_clean: "clean_text example_str ''Apple shares fall'' = []"
  by (simp add: clean_text_def example_str_def)

lemma example_aggregate:
  "aggregate_sentiments example_str (\<lambda>x. x) example_items =
     Some [(''2019-04-15'', 0.5, ''Positive''), (''2019-04-13'', - 0.3, ''Negative''),
           (''2019-04-14'', 0.005, ''Neutral'')]"
  by (simp add: aggregate_sentiments_def example_items_def example_str_def get_or_empty_def
      mean_def Let_def)

text \<open>
  C9, as the code has it. The claim: every compound score strictly between -0.01 and 0.01
  is Neutral, scores from 0.01 up are Positive, scores at or below -0.00 are Negative.
  The second test of the code is \<open>compound <= -0.00\<close>, a comparison with zero. What
  holds, for \<open>analyze_sentiment\<close> and for every date of \<open>aggregate_sentiments\<close>
  (which always returns): a score from 0.01 up is Positive, a score strictly between 0
  and 0.01 is Neutral, a score below 0 is Negative; the scores that
  \<open>analyze_sentiment\<close> returns are those of the cleaned text.
\<close>

theorem sentiment_thresholds:
  "well_classified (compound (snd (analyze_sentiment lib polarity_scores txt)))
     (fst (analyze_sentiment lib polarity_scores txt)) \<and>
   snd (analyze_sentiment lib polarity_scores txt) = polarity_scores (clean_text lib txt) \<and>
   (\<exists>agg. aggregate_sentiments lib to_float articles = Some agg \<and>
      (\<forall>e\<in>set agg. well_classified (fst (snd e)) (snd (snd e))))"
proof -
  have "\<forall>e\<in>set (group_by_date lib articles []). snd e \<noteq> []"
    by (rule group_by_date_nonempty) simp
  from classify_dates_total [OF this] obtain agg where
    agg: "aggregate_sentiments lib to_float articles = Some agg"
    by (auto simp: aggregate_sentiments_def)
  then have "\<forall>e\<in>set agg. well_classified (fst (snd e)) (snd (snd e))"
    by (simp add: aggregate_sentiments_def classify_dates_class)
  with agg show ?thesis
    using analyze_sentiment_class [of lib polarity_scores "txt"]
      analyze_sentiment_scores [of lib polarity_scores "txt"]
    by blast
qed

theorem sentiment_thresholds_witness:
  "fst (analyze_sentiment example_str (\<lambda>t. example_scores 0.5) ''Apple shares fall'')
     = ''Positive'' \<and>
   fst (analyze_sentiment example_str (\<lambda>t. example_scores 0.005) ''Apple shares fall'')
     = ''Neutral'' \<and>
   fst (analyze_sentiment example_str (\<lambda>t. example_scores (- 0.3)) ''Apple shares fall'')
     = ''Negative'' \<and>
   aggregate_sentiments example_str (\<lambda>x. x) example_items =
     Some [(''2019-04-15'', 0.5, ''Positive''), (''2019-04-13'', - 0.3, ''Negative''),
           (''2019-04-14'', 0.005, ''Neutral'')]"
proof -
  have pos: "fst (analyze_sentiment example_str (\<lambda>t. example_scores 0.5) ''Apple shares fall'')
     = ''Positive''"
    using sentiment_thresholds [of example_str "\<lambda>t. example_scores 0.5" "''Apple shares fall''"]
    by (simp add: well_classified_def example_scores_def)
  have neu: "fst (analyze_sentiment example_str (\<lambda>t. example_scores 0.005) ''Apple shares fall'')
     = ''Neutral''"
    using sentiment_thresholds [of example_str "\<lambda>t. example_scores 0.005" "''Apple shares fall''"]
    by (simp add: well_classified_def example_scores_def)
  have neg: "fst (analyze_sentiment example_str (\<lambda>t. example_scores (- 0.3)) ''Apple shares fall'')
     = ''Negative''"
    using sentiment_thresholds [of example_str "\<lambda>t. example_scores (- 0.3)" "''Apple shares fall''"]
    by (simp add: well_classified_def example_scores_def)
  show ?thesis using pos neu neg example_aggregate by simp
qed

text \<open>
  C9, the claim as stated fails: the score -0.005 lies strictly between -0.01 and 0.01,
  and both functions class it Negative.
\<close>

theorem dead_zone_is_not_neutral:
  "- 0.01 < (- 0.005 :: real) \<and> (- 0.005 :: real) < 0.01 \<and>
   fst (analyze_sentiment example_str (\<lambda>t. example_scores (- 0.005)) ''Apple shares fall'')
     = ''Negative'' \<and>
   aggregate_sentiments example_str (\<lambda>x. x)
     [\<lparr>query_date = Some ''2019-04-13'', seendate = None, item_compound = Some (- 0.005)\<rparr>]
     = Some [(''2019-04-13'', - 0.005, ''Negative'')]"
  by (simp add: analyze_sentiment_def example_scores_def aggregate_sentiments_def
      example_str_def get_or_empty_def mean_def Let_def)

text \<open>
  At the score 0 itself both functions answer Negative, where the docstring of
  \<open>aggregate_sentiments\<close> shows \<open>{"avg_compound": 0.0, "sentiment": "Neutral"}\<close>.
\<close>

lemma zero_score_is_negative:
  "fst (analyze_sentiment example_str (\<lambda>t. example_scores 0) ''Apple shares fall'') = ''Negative'' \<and>
   aggregate_sentiments example_str (\<lambda>x. x)
     [\<lparr>query_date = Some ''2019-04-15'', seendate = None, item_compound = Some 0\<rparr>]
     = Some [(''2019-04-15'', 0, ''Negative'')]"
  by (simp add: analyze_sentiment_def example_scores_def aggregate_sentiments_def
      example_str_def get_or_empty_def mean_def Let_def)


end
